theory Spec2Isabelle
  imports Complex_Main "HOL-Library.AList" "HOL-Library.Sublist" "HOL-Library.Product_Lexorder"
begin

section \<open>Python values\<close>

text \<open>
  A Python float is either a finite double, given by the rational number it denotes, an
  infinity or a NaN. The conversion of an exact rational to the nearest double (IEEE 754
  round-half-even, overflowing to an infinity) is not part of the application: every
  function that needs it takes it as the parameter \<open>rnd\<close>.
\<close>

datatype pyfloat = Fin rat | PInf | NInf | NaN

datatype pyval =
    PNone
  | PBool bool
  | PInt int
  | PFloat pyfloat
  | PStr string
  | PList "pyval list"
  | PDict "(string \<times> pyval) list"

text \<open>
  The exceptions that reach an \<open>except\<close> clause of a route. All but \<open>ValueError\<close>
  carry the text that \<open>str(e)\<close> gives, as CPython 3.11 words it; the text of a
  \<open>ValueError\<close> is never used by the application.
\<close>

datatype pyexn =
    ValueError
  | TypeError string
  | KeyError string
  | AttributeError string
  | OverflowError string
  | HTTPException string

text \<open>A name between single quotes, as the interpreter prints type and key names.\<close>

definition quoted :: "string \<Rightarrow> string" where
  "quoted s = CHR 0x27 # s @ [CHR 0x27]"

fun type_name :: "pyval \<Rightarrow> string" where
  "type_name PNone = ''NoneType''"
| "type_name (PBool b) = ''bool''"
| "type_name (PInt i) = ''int''"
| "type_name (PFloat f) = ''float''"
| "type_name (PStr s) = ''str''"
| "type_name (PList xs) = ''list''"
| "type_name (PDict kvs) = ''dict''"

text \<open>Truth value of an object, as tested by \<open>if data\<close> and \<open>not data\<close>.\<close>

fun truthy :: "pyval \<Rightarrow> bool" where
  "truthy PNone = False"
| "truthy (PBool b) = b"
| "truthy (PInt i) = (i \<noteq> 0)"
| "truthy (PFloat f) = (f \<noteq> Fin 0)"
| "truthy (PStr s) = (s \<noteq> [])"
| "truthy (PList xs) = (xs \<noteq> [])"
| "truthy (PDict kvs) = (kvs \<noteq> [])"

text \<open>Substring test: \<open>p in s\<close> on strings.\<close>

fun str_contains :: "string \<Rightarrow> string \<Rightarrow> bool" where
  "str_contains p [] = (p = [])"
| "str_contains p (c # cs) = (prefix p (c # cs) \<or> str_contains p cs)"

text \<open>\<open>key in data\<close>: defined on containers, a \<open>TypeError\<close> on the other types.\<close>

fun py_in :: "string \<Rightarrow> pyval \<Rightarrow> pyexn + bool" where
  "py_in k (PDict kvs) = Inr (k \<in> fst ` set kvs)"
| "py_in k (PStr s) = Inr (str_contains k s)"
| "py_in k (PList xs) = Inr (PStr k \<in> set xs)"
| "py_in k v = Inl (TypeError (''argument of type '' @ quoted (type_name v) @ '' is not iterable''))"

text \<open>\<open>data[key]\<close> with a string key: a dict looks the key up, every other type raises.\<close>

fun py_getitem :: "pyval \<Rightarrow> string \<Rightarrow> pyexn + pyval" where
  "py_getitem (PDict kvs) k =
     (case map_of kvs k of None \<Rightarrow> Inl (KeyError (quoted k)) | Some v \<Rightarrow> Inr v)"
| "py_getitem (PStr s) k = Inl (TypeError (''string indices must be integers, not '' @ quoted ''str''))"
| "py_getitem (PList xs) k = Inl (TypeError ''list indices must be integers or slices, not str'')"
| "py_getitem v k = Inl (TypeError (quoted (type_name v) @ '' object is not subscriptable''))"

text \<open>\<open>data.get(key, default)\<close>: only a dict has the method.\<close>

fun py_get :: "pyval \<Rightarrow> string \<Rightarrow> pyval \<Rightarrow> pyexn + pyval" where
  "py_get (PDict kvs) k d = (case map_of kvs k of None \<Rightarrow> Inr d | Some v \<Rightarrow> Inr v)"
| "py_get v k d =
     Inl (AttributeError (quoted (type_name v) @ '' object has no attribute '' @ quoted ''get''))"

section \<open>The builtin \<open>float\<close>\<close>

definition is_digit :: "char \<Rightarrow> bool" where
  "is_digit c = (c \<in> set ''0123456789'')"

definition digit_val :: "char \<Rightarrow> nat" where
  "digit_val c = (case map_of (zip ''0123456789'' [0, 1, 2, 3, 4, 5, 6, 7, 8, 9]) c of
                    Some d \<Rightarrow> d | None \<Rightarrow> 0)"

definition digits_val :: "string \<Rightarrow> nat" where
  "digits_val ds = foldl (\<lambda>acc c. 10 * acc + digit_val c) 0 ds"

text \<open>
  A \<open>char\<close> is a code point below 256, so a \<open>string\<close> is a Python \<open>str\<close> of such code
  points. \<open>float\<close> first turns every whitespace code point beyond ASCII into a space
  (below 256 these are U+0085 and U+00A0) and then drops the surrounding ASCII
  whitespace: space, tab, line feed, vertical tab, form feed and carriage return. The
  separators U+001C to U+001F are ASCII and are not dropped. No code point from 128 to
  255 is a decimal digit.
\<close>

definition is_space :: "char \<Rightarrow> bool" where
  "is_space c = (c \<in> set [CHR '' '', CHR 0x09, CHR 0x0A, CHR 0x0B, CHR 0x0C, CHR 0x0D,
                           CHR 0x85, CHR 0xA0])"

definition strip :: "string \<Rightarrow> string" where
  "strip s = rev (dropWhile is_space (rev (dropWhile is_space s)))"

definition lower_char :: "char \<Rightarrow> char" where
  "lower_char c = (case map_of (zip ''ABCDEFGHIJKLMNOPQRSTUVWXYZ'' ''abcdefghijklmnopqrstuvwxyz'') c of
                     Some l \<Rightarrow> l | None \<Rightarrow> c)"

text \<open>
  The longest prefix that is a \<open>digitpart\<close> of the float grammar: decimal digits, with
  single underscores allowed between two digits. Returns the digits and the rest.
\<close>

fun digitpart :: "string \<Rightarrow> string \<times> string" where
  "digitpart [] = ([], [])"
| "digitpart [c] = (if is_digit c then ([c], []) else ([], [c]))"
| "digitpart (c # d # cs) =
     (if \<not> is_digit c then ([], c # d # cs)
      else if d = CHR ''_'' then
        (case cs of
           [] \<Rightarrow> ([c], d # cs)
         | e # es \<Rightarrow> if is_digit e then (case digitpart cs of (ds, r) \<Rightarrow> (c # ds, r))
                    else ([c], d # cs))
      else (case digitpart (d # cs) of (ds, r) \<Rightarrow> (c # ds, r)))"

definition split_sign :: "string \<Rightarrow> bool \<times> string" where
  "split_sign s = (case s of
       [] \<Rightarrow> (False, [])
     | c # cs \<Rightarrow> if c = CHR ''-'' then (True, cs) else if c = CHR ''+'' then (False, cs)
                else (False, s))"

text \<open>The exponent part \<open>("e" | "E") [sign] digitpart\<close>, which must end the string.\<close>

definition parse_exponent :: "string \<Rightarrow> int option" where
  "parse_exponent s = (case s of
       [] \<Rightarrow> Some 0
     | c # cs \<Rightarrow>
         if c = CHR ''e'' \<or> c = CHR ''E'' then
           (case split_sign cs of (neg, r) \<Rightarrow>
              (case digitpart r of (ds, r') \<Rightarrow>
                 if ds = [] \<or> r' \<noteq> [] then None
                 else Some (if neg then - int (digits_val ds) else int (digits_val ds))))
         else None)"

definition scale10 :: "rat \<Rightarrow> int \<Rightarrow> rat" where
  "scale10 m e = (if 0 \<le> e then m * 10 ^ nat e else m / 10 ^ nat (- e))"

text \<open>An unsigned \<open>floatnumber\<close>: its exact value, or \<open>None\<close> when the string is none.\<close>

definition parse_number :: "string \<Rightarrow> rat option" where
  "parse_number s =
     (case digitpart s of (ip, r1) \<Rightarrow>
        (case (case r1 of [] \<Rightarrow> ([], r1)
                 | c # cs \<Rightarrow> if c = CHR ''.'' then digitpart cs else ([], r1)) of
           (fp, r2) \<Rightarrow>
             if ip = [] \<and> fp = [] then None
             else (case parse_exponent r2 of
                     None \<Rightarrow> None
                   | Some e \<Rightarrow> Some (scale10 (of_nat (digits_val (ip @ fp))) (e - int (length fp))))))"

text \<open>
  \<open>float(s)\<close> on a string: surrounding whitespace is dropped, then an optional sign and
  \<open>inf\<close>, \<open>infinity\<close>, \<open>nan\<close> (in any case) or a decimal number. \<open>None\<close> is the
  \<open>ValueError\<close>.
\<close>

definition float_of_string :: "(rat \<Rightarrow> pyfloat) \<Rightarrow> string \<Rightarrow> pyfloat option" where
  "float_of_string rnd s =
     (case split_sign (strip s) of (neg, u) \<Rightarrow>
        if map lower_char u = ''inf'' \<or> map lower_char u = ''infinity''
          then Some (if neg then NInf else PInf)
        else if map lower_char u = ''nan'' then Some NaN
        else (case parse_number u of
                None \<Rightarrow> None
              | Some q \<Rightarrow> Some (rnd (if neg then - q else q))))"

text \<open>
  \<open>float(v)\<close>: a float is itself, an int is rounded (\<open>OverflowError\<close> when it is too
  large), a string is parsed (\<open>ValueError\<close>), everything else is a \<open>TypeError\<close>.
\<close>

definition float_of_int :: "(rat \<Rightarrow> pyfloat) \<Rightarrow> int \<Rightarrow> pyexn + pyfloat" where
  "float_of_int rnd i = (case rnd (of_int i) of
       Fin r \<Rightarrow> Inr (Fin r)
     | _ \<Rightarrow> Inl (OverflowError ''int too large to convert to float''))"

fun py_float :: "(rat \<Rightarrow> pyfloat) \<Rightarrow> pyval \<Rightarrow> pyexn + pyfloat" where
  "py_float rnd (PFloat f) = Inr f"
| "py_float rnd (PInt i) = float_of_int rnd i"
| "py_float rnd (PBool b) = float_of_int rnd (if b then 1 else 0)"
| "py_float rnd (PStr s) =
     (case float_of_string rnd s of
        None \<Rightarrow> Inl ValueError
      | Some f \<Rightarrow> Inr f)"
| "py_float rnd v =
     Inl (TypeError (''float() argument must be a string or a real number, not ''
                      @ quoted (type_name v)))"

section \<open>Clock readings\<close>

record datetime =
  year :: nat
  month :: nat
  day :: nat
  hour :: nat
  minute :: nat
  second :: nat
  microsecond :: nat

definition digit_char :: "nat \<Rightarrow> char" where
  "digit_char n = ''0123456789'' ! (n mod 10)"

text \<open>
  A number in a field of \<open>w\<close> decimal digits, zero-padded (\<open>%02d\<close>, \<open>%04d\<close>,
  \<open>%06d\<close>). The fields of a datetime never exceed their width.
\<close>

fun zpad :: "nat \<Rightarrow> nat \<Rightarrow> string" where
  "zpad 0 n = []"
| "zpad (Suc w) n = zpad w (n div 10) @ [digit_char n]"

definition strftime :: "datetime \<Rightarrow> string" where
  "strftime d = zpad 4 (year d) @ ''-'' @ zpad 2 (month d) @ ''-'' @ zpad 2 (day d) @ '' ''
              @ zpad 2 (hour d) @ '':'' @ zpad 2 (minute d) @ '':'' @ zpad 2 (second d)"

definition isoformat :: "datetime \<Rightarrow> string" where
  "isoformat d = zpad 4 (year d) @ ''-'' @ zpad 2 (month d) @ ''-'' @ zpad 2 (day d) @ ''T''
              @ zpad 2 (hour d) @ '':'' @ zpad 2 (minute d) @ '':'' @ zpad 2 (second d)
              @ (if microsecond d = 0 then [] else ''.'' @ zpad 6 (microsecond d))"



section \<open>The data directory\<close>

text \<open>
  The store is the directory \<open>DATA_DIR\<close>: its entries are plain files, listed by name.
  A file's bytes either are a JSON document (\<open>Doc v\<close>, the text \<open>json.dump\<close> writes for
  \<open>v\<close> and \<open>json.load\<close> reads back as \<open>v\<close>) or are bytes that \<open>json.load\<close> rejects
  (\<open>Corrupt\<close>: an empty or truncated file among them). The order of the list is the order
  in which \<open>os.listdir\<close> reports the entries. \<open>ticks\<close> counts the clock readings made so
  far: the \<open>n\<close>-th call of \<open>datetime.now()\<close> returns \<open>clk n\<close>.
\<close>

datatype file_content = Doc pyval | Corrupt

record world =
  files :: "(string \<times> file_content) list"
  ticks :: nat

type_synonym clock = "nat \<Rightarrow> datetime"

definition DATA_DIR :: string where
  "DATA_DIR = ''machine_data''"

text \<open>\<open>os.path.join\<close> of two components (POSIX).\<close>

definition path_join :: "string \<Rightarrow> string \<Rightarrow> string" where
  "path_join a b =
     (if b \<noteq> [] \<and> hd b = CHR ''/'' then b
      else if a = [] \<or> last a = CHR ''/'' then a @ b
      else a @ ''/'' @ b)"

definition get_machine_file :: "string \<Rightarrow> string" where
  "get_machine_file machine_id = path_join DATA_DIR (''machine_'' @ machine_id @ ''.json'')"

text \<open>
  The length of a name in the file system's encoding (UTF-8): a code point from 128 to
  255 takes two bytes.
\<close>

definition utf8_length :: "string \<Rightarrow> nat" where
  "utf8_length name = length name + length (filter digit7 name)"

text \<open>
  The entry of \<open>DATA_DIR\<close> a path names, if it names one: the directory holds files only,
  so a path with a further \<open>/\<close> names nothing that exists or can be created; neither does
  a name with a NUL, nor a name of more than 255 bytes. For such a path \<open>open\<close> raises
  and \<open>os.path.exists\<close> is false.
\<close>

definition dir_entry :: "string \<Rightarrow> string option" where
  "dir_entry p =
     (let pre = DATA_DIR @ ''/''; name = drop (length pre) p
      in if prefix pre p \<and> name \<noteq> [] \<and> CHR ''/'' \<notin> set name \<and> CHR 0x00 \<notin> set name
            \<and> utf8_length name \<le> 255
         then Some name else None)"

text \<open>
  What can go wrong while writing: nothing, \<open>open(file_path, 'w')\<close> raises (permission
  denied, no such directory), or the write raises after the file was opened (disk full).
\<close>

datatype io_fault = NoFault | OpenFails | WriteFails

text \<open>
  \<open>open(path, 'w')\<close> creates the file or truncates it in place, and gives the opened
  entry; \<open>None\<close> when it raises. \<open>save_weight_data\<close> catches every exception of the write
  and only prints it, so which exception it was is not kept.
\<close>

definition open_w :: "io_fault \<Rightarrow> world \<Rightarrow> string \<Rightarrow> string option \<times> world" where
  "open_w fault s path =
     (case dir_entry path of
        None \<Rightarrow> (None, s)
      | Some name \<Rightarrow>
          if fault = OpenFails then (None, s)
          else (Some name, s\<lparr>files := AList.update name Corrupt (files s)\<rparr>))"

text \<open>
  \<open>json.dump(data, f)\<close> into the opened file, and whether it returned: a failed write
  leaves a truncated file.
\<close>

definition json_dump :: "io_fault \<Rightarrow> world \<Rightarrow> string \<Rightarrow> pyval \<Rightarrow> bool \<times> world" where
  "json_dump fault s name data =
     (if fault = WriteFails then (False, s)
      else (True, s\<lparr>files := AList.update name (Doc data) (files s)\<rparr>))"

section \<open>Helper functions of the application\<close>

definition save_weight_data :: "clock \<Rightarrow> io_fault \<Rightarrow> world \<Rightarrow> string \<Rightarrow> pyfloat \<Rightarrow> bool \<times> world" where
  "save_weight_data clk fault s machine_id weight =
     (let data = PDict [(''machine_id'', PStr machine_id),
                        (''weight'', PFloat weight),
                        (''timestamp'', PStr (isoformat (clk (ticks s)))),
                        (''last_updated'', PStr (strftime (clk (Suc (ticks s)))))];
          s1 = s\<lparr>ticks := ticks s + 2\<rparr>;
          file_path = get_machine_file machine_id
      in case open_w fault s1 file_path of
           (None, s2) \<Rightarrow> (False, s2)
         | (Some f, s2) \<Rightarrow>
             (case json_dump fault s2 f data of
                (False, s3) \<Rightarrow> (False, s3)
              | (True, s3) \<Rightarrow> (True, s3)))"

text \<open>The result \<open>PNone\<close> is Python's \<open>None\<close>: no file, or a file that does not decode.\<close>

definition load_weight_data :: "world \<Rightarrow> string \<Rightarrow> pyval" where
  "load_weight_data s machine_id =
     (case dir_entry (get_machine_file machine_id) of
        None \<Rightarrow> PNone
      | Some name \<Rightarrow>
          (case map_of (files s) name of
             None \<Rightarrow> PNone
           | Some Corrupt \<Rightarrow> PNone
           | Some (Doc v) \<Rightarrow> v))"

text \<open>\<open>s.replace(old, new)\<close>: every occurrence, left to right, without overlap.\<close>

function replace :: "string \<Rightarrow> string \<Rightarrow> string \<Rightarrow> string" where
  "replace old new [] = (if old = [] then new else [])"
| "replace old new (c # cs) =
     (if old = [] then new @ c # replace old new cs
      else if prefix old (c # cs) then new @ replace old new (drop (length old) (c # cs))
      else c # replace old new cs)"
  by pat_completeness auto
termination
  by (relation "measure (\<lambda>(old, new, s). length s)") auto

definition listed_id :: "string \<Rightarrow> string" where
  "listed_id filename = replace ''.json'' [] (replace ''machine_'' [] filename)"

text \<open>
  The loop of \<open>get_all_machines\<close> over the directory listing, with the list built so
  far. An exception anywhere in the loop leaves it (\<open>Inl\<close>).
\<close>

fun machines_loop ::
  "world \<Rightarrow> string list \<Rightarrow> (string \<times> pyval) list list \<Rightarrow> pyexn + (string \<times> pyval) list list" where
  "machines_loop s [] machines = Inr machines"
| "machines_loop s (filename # rest) machines =
     (if prefix ''machine_'' filename \<and> suffix ''.json'' filename then
        (let machine_id = listed_id filename;
             data = load_weight_data s machine_id
         in if truthy data then
              (case py_getitem data ''weight'' of
                 Inl e \<Rightarrow> Inl e
               | Inr w \<Rightarrow>
                   (case py_get data ''last_updated'' (PStr ''Unknown'') of
                      Inl e \<Rightarrow> Inl e
                    | Inr lu \<Rightarrow>
                        machines_loop s rest
                          (machines @ [[(''machine_id'', PStr machine_id),
                                        (''weight'', w),
                                        (''last_updated'', lu)]])))
            else machines_loop s rest machines)
      else machines_loop s rest machines)"

definition get_all_machines :: "world \<Rightarrow> (string \<times> pyval) list list" where
  "get_all_machines s =
     (case machines_loop s (map fst (files s)) [] of
        Inl e \<Rightarrow> []
      | Inr machines \<Rightarrow> machines)"

section \<open>Routes\<close>

record response =
  http_status :: nat
  body :: "(string \<times> pyval) list"

text \<open>The handler registered for status 500 answers an exception no route catches.\<close>

definition internal_error :: response where
  "internal_error =
     \<lparr>http_status = 500,
      body = [(''status'', PStr ''error''), (''message'', PStr ''Internal server error'')]\<rparr>"

definition get_weight :: "world \<Rightarrow> string \<Rightarrow> response" where
  "get_weight s machine_id =
     (let data = load_weight_data s machine_id
      in if truthy data then
           (case py_getitem data ''weight'' of
              Inl e \<Rightarrow> internal_error
            | Inr w \<Rightarrow>
                (case py_getitem data ''timestamp'' of
                   Inl e \<Rightarrow> internal_error
                 | Inr t \<Rightarrow>
                     \<lparr>http_status = 200,
                      body = [(''status'', PStr ''success''),
                              (''machine_id'', PStr machine_id),
                              (''weight'', w),
                              (''timestamp'', t)]\<rparr>))
         else
           \<lparr>http_status = 200,
            body = [(''status'', PStr ''no_data''),
                    (''message'', PStr (''No weight data available for Machine '' @ machine_id))]\<rparr>)"

definition error_response :: "nat \<Rightarrow> string \<Rightarrow> response" where
  "error_response code msg =
     \<lparr>http_status = code, body = [(''status'', PStr ''error''), (''message'', PStr msg)]\<rparr>"

text \<open>The two \<open>except\<close> clauses of \<open>update_weight\<close>, in their order.\<close>

fun handle_exn :: "pyexn \<Rightarrow> response" where
  "handle_exn ValueError = error_response 400 ''Invalid weight format''"
| "handle_exn (TypeError m) = error_response 500 m"
| "handle_exn (KeyError m) = error_response 500 m"
| "handle_exn (AttributeError m) = error_response 500 m"
| "handle_exn (OverflowError m) = error_response 500 m"
| "handle_exn (HTTPException m) = error_response 500 m"

text \<open>
  \<open>request\<close> is what \<open>request.get_json()\<close> does: it raises, or returns the decoded body.
\<close>

definition update_weight ::
  "clock \<Rightarrow> (rat \<Rightarrow> pyfloat) \<Rightarrow> io_fault \<Rightarrow> world \<Rightarrow> string \<Rightarrow> pyexn + pyval \<Rightarrow> response \<times> world" where
  "update_weight clk rnd fault s machine_id request =
     (case request of
        Inl e \<Rightarrow> (handle_exn e, s)
      | Inr data \<Rightarrow>
          if \<not> truthy data then (error_response 400 ''No weight data provided'', s)
          else
            (case py_in ''weight'' data of
               Inl e \<Rightarrow> (handle_exn e, s)
             | Inr present \<Rightarrow>
                 if \<not> present then (error_response 400 ''No weight data provided'', s)
                 else
                   (case py_getitem data ''weight'' of
                      Inl e \<Rightarrow> (handle_exn e, s)
                    | Inr v \<Rightarrow>
                        (case py_float rnd v of
                           Inl e \<Rightarrow> (handle_exn e, s)
                         | Inr weight \<Rightarrow>
                             (case save_weight_data clk fault s machine_id weight of
                                (True, s1) \<Rightarrow>
                                  (\<lparr>http_status = 200,
                                    body = [(''status'', PStr ''success''),
                                            (''message'', PStr (''Weight updated for Machine '' @ machine_id)),
                                            (''machine_id'', PStr machine_id),
                                            (''weight'', PFloat weight),
                                            (''timestamp'', PStr (isoformat (clk (ticks s1))))]\<rparr>,
                                   s1\<lparr>ticks := Suc (ticks s1)\<rparr>)
                              | (False, s1) \<Rightarrow>
                                  (error_response 500 ''Failed to save weight data'', s1))))))"



section \<open>Vocabulary of the statements\<close>

definition machine_filename :: "string \<Rightarrow> string" where
  "machine_filename machine_id = ''machine_'' @ machine_id @ ''.json''"

text \<open>The identifiers whose file can exist in the directory.\<close>

definition storable :: "string \<Rightarrow> bool" where
  "storable machine_id =
     (CHR ''/'' \<notin> set machine_id \<and> CHR 0x00 \<notin> set machine_id
      \<and> utf8_length (machine_filename machine_id) \<le> 255)"

definition weight_record :: "clock \<Rightarrow> nat \<Rightarrow> string \<Rightarrow> pyfloat \<Rightarrow> pyval" where
  "weight_record clk n machine_id weight =
     PDict [(''machine_id'', PStr machine_id),
            (''weight'', PFloat weight),
            (''timestamp'', PStr (isoformat (clk n))),
            (''last_updated'', PStr (strftime (clk (Suc n))))]"

definition success_ack :: "string \<Rightarrow> pyfloat \<Rightarrow> datetime \<Rightarrow> response" where
  "success_ack machine_id weight t =
     \<lparr>http_status = 200,
      body = [(''status'', PStr ''success''),
              (''message'', PStr (''Weight updated for Machine '' @ machine_id)),
              (''machine_id'', PStr machine_id),
              (''weight'', PFloat weight),
              (''timestamp'', PStr (isoformat t))]\<rparr>"

definition no_data_response :: "string \<Rightarrow> response" where
  "no_data_response machine_id =
     \<lparr>http_status = 200,
      body = [(''status'', PStr ''no_data''),
              (''message'', PStr (''No weight data available for Machine '' @ machine_id))]\<rparr>"

definition found_response :: "string \<Rightarrow> pyval \<Rightarrow> pyval \<Rightarrow> response" where
  "found_response machine_id w t =
     \<lparr>http_status = 200,
      body = [(''status'', PStr ''success''),
              (''machine_id'', PStr machine_id),
              (''weight'', w),
              (''timestamp'', t)]\<rparr>"

definition clean_id :: "string \<Rightarrow> bool" where
  "clean_id machine_id = (\<not> str_contains ''machine_'' machine_id \<and> \<not> str_contains ''.json'' machine_id)"

definition record_ok :: "pyval \<Rightarrow> bool" where
  "record_ok v = (truthy v \<longrightarrow> (case v of PDict kvs \<Rightarrow> map_of kvs ''weight'' \<noteq> None | _ \<Rightarrow> False))"

definition store_ok :: "world \<Rightarrow> bool" where
  "store_ok s = list_all (\<lambda>(n, c). case c of Corrupt \<Rightarrow> True | Doc v \<Rightarrow> record_ok v) (files s)"

definition summary :: "string \<Rightarrow> pyval \<Rightarrow> pyval \<Rightarrow> (string \<times> pyval) list" where
  "summary machine_id w lu = [(''machine_id'', PStr machine_id), (''weight'', w), (''last_updated'', lu)]"

definition entry_summary :: "world \<Rightarrow> string \<Rightarrow> (string \<times> pyval) list option" where
  "entry_summary s filename =
     (if prefix ''machine_'' filename \<and> suffix ''.json'' filename then
        (case load_weight_data s (listed_id filename) of
           PDict kvs \<Rightarrow>
             (case map_of kvs ''weight'' of
                None \<Rightarrow> None
              | Some w \<Rightarrow> Some (summary (listed_id filename) w
                  (case map_of kvs ''last_updated'' of None \<Rightarrow> PStr ''Unknown'' | Some lu \<Rightarrow> lu)))
         | _ \<Rightarrow> None)
      else None)"

definition sample_clock :: clock where
  "sample_clock n = \<lparr>year = 2024, month = 1, day = 2, hour = 3, minute = 4, second = 5, microsecond = n\<rparr>"

definition empty_world :: world where
  "empty_world = \<lparr>files = [], ticks = 0\<rparr>"

definition weight_payload :: "pyval \<Rightarrow> pyexn + pyval" where
  "weight_payload v = Inr (PDict [(''weight'', v)])"


definition world_1 :: world where
  "world_1 = \<lparr>files = [(''machine_1.json'', Doc (weight_record sample_clock 0 ''1'' (Fin (21 / 2))))],
              ticks = 3\<rparr>"

definition world_2 :: world where
  "world_2 = \<lparr>files = [(''machine_1.json'', Doc (weight_record sample_clock 3 ''1'' (Fin 12)))],
              ticks = 6\<rparr>"


type_synonym submission = "string \<times> io_fault \<times> (pyexn + pyval)"

fun run_submits ::
  "clock \<Rightarrow> (rat \<Rightarrow> pyfloat) \<Rightarrow> world \<Rightarrow> submission list \<Rightarrow> world \<times> (string \<times> response) list" where
  "run_submits clk rnd s [] = (s, [])"
| "run_submits clk rnd s ((m, fault, req) # rest) =
     (case update_weight clk rnd fault s m req of
        (r, s1) \<Rightarrow> (case run_submits clk rnd s1 rest of (s2, answers) \<Rightarrow> (s2, (m, r) # answers)))"

definition never_succeeded :: "string \<Rightarrow> (string \<times> response) list \<Rightarrow> bool" where
  "never_succeeded mid answers = list_all (\<lambda>(m, r). m = mid \<longrightarrow> http_status r \<noteq> 200) answers"

definition sample_run :: "submission list" where
  "sample_run = [(''1'', NoFault, weight_payload (PFloat (Fin (21 / 2)))),
                 (''2'', NoFault, weight_payload (PStr ''abc'')),
                 (''2'', WriteFails, weight_payload (PFloat (Fin 12)))]"

definition world_3 :: world where
  "world_3 = \<lparr>files = [(''machine_1.json'', Doc (weight_record sample_clock 0 ''1'' (Fin (21 / 2)))),
                       (''machine_2.json'', Corrupt)],
              ticks = 5\<rparr>"






section \<open>Paths and file names\<close>

lemma get_machine_file_eq:
  "get_machine_file mid = ''machine_data/'' @ machine_filename mid"
  by (simp add: get_machine_file_def path_join_def DATA_DIR_def machine_filename_def)

lemma dir_entry_machine_file:
  "dir_entry (get_machine_file mid) =
     (if \<not> storable mid then None else Some (machine_filename mid))"
  by (simp add: get_machine_file_eq dir_entry_def DATA_DIR_def Let_def storable_def)
     (auto simp: machine_filename_def)

lemma storable_digits: "storable ''1''" "storable ''2''" "storable ''3''"
  by (simp_all add: storable_def utf8_length_def machine_filename_def)

lemma machine_filename_pattern:
  "prefix ''machine_'' (machine_filename m)" "suffix ''.json'' (machine_filename m)"
proof -
  show "prefix ''machine_'' (machine_filename m)" by (simp add: machine_filename_def)
  have "machine_filename m = (''machine_'' @ m) @ ''.json''" by (simp add: machine_filename_def)
  then show "suffix ''.json'' (machine_filename m)" by (simp only: suffix_def) blast
qed

lemma machine_filename_inj: "machine_filename a = machine_filename b \<longleftrightarrow> a = b"
  by (simp add: machine_filename_def)

lemma save_weight_data_ok:
  "storable mid \<Longrightarrow>
   save_weight_data clk NoFault s mid w =
     (True, s\<lparr>files := AList.update (machine_filename mid) (Doc (weight_record clk (ticks s) mid w)) (files s),
              ticks := ticks s + 2\<rparr>)"
  by (simp add: save_weight_data_def Let_def open_w_def json_dump_def dir_entry_machine_file
      weight_record_def)

lemma save_weight_data_open_fails:
  "save_weight_data clk OpenFails s mid w = (False, s\<lparr>ticks := ticks s + 2\<rparr>)"
  by (simp add: save_weight_data_def Let_def open_w_def split: option.splits)

lemma save_weight_data_bad_path:
  "\<not> storable mid \<Longrightarrow> save_weight_data clk fault s mid w = (False, s\<lparr>ticks := ticks s + 2\<rparr>)"
  by (simp add: save_weight_data_def Let_def open_w_def dir_entry_machine_file)

lemma save_weight_data_write_fails:
  "storable mid \<Longrightarrow>
   save_weight_data clk WriteFails s mid w =
     (False, s\<lparr>files := AList.update (machine_filename mid) Corrupt (files s), ticks := ticks s + 2\<rparr>)"
  by (simp add: save_weight_data_def Let_def open_w_def json_dump_def dir_entry_machine_file)

lemma load_weight_data_eq:
  "load_weight_data s mid =
     (if \<not> storable mid then PNone
      else case map_of (files s) (machine_filename mid) of
             None \<Rightarrow> PNone | Some Corrupt \<Rightarrow> PNone | Some (Doc v) \<Rightarrow> v)"
  by (simp add: load_weight_data_def dir_entry_machine_file)

lemma map_of_Some_in_fst: "map_of kvs k = Some v \<Longrightarrow> k \<in> fst ` set kvs"
  by (metis map_of_eq_None_iff option.distinct(1))

lemma update_weight_dict:
  assumes "map_of kvs ''weight'' = Some v"
  shows "update_weight clk rnd fault s mid (Inr (PDict kvs)) =
     (case py_float rnd v of
        Inl e \<Rightarrow> (handle_exn e, s)
      | Inr w \<Rightarrow>
          (case save_weight_data clk fault s mid w of
             (True, s1) \<Rightarrow> (success_ack mid w (clk (ticks s1)), s1\<lparr>ticks := Suc (ticks s1)\<rparr>)
           | (False, s1) \<Rightarrow> (error_response 500 ''Failed to save weight data'', s1)))"
proof -
  from assms have ne: "kvs \<noteq> []" by auto
  from assms have mem: "''weight'' \<in> fst ` set kvs" by (rule map_of_Some_in_fst)
  show ?thesis
    using assms ne mem
    by (simp add: update_weight_def success_ack_def split: sum.splits prod.splits bool.splits)
qed

lemma float_abc: "float_of_string rnd ''abc'' = None"
  by (simp add: float_of_string_def strip_def is_space_def split_sign_def lower_char_def
      parse_number_def is_digit_def)

lemma update_weight_abc:
  "update_weight clk rnd fault s mid (Inr (PDict [(''weight'', PStr ''abc'')])) =
     (error_response 400 ''Invalid weight format'', s)"
  by (simp add: update_weight_dict float_abc)

lemma get_weight_none:
  "load_weight_data s mid = PNone \<Longrightarrow> get_weight s mid = no_data_response mid"
  by (simp add: get_weight_def no_data_response_def)

lemma get_weight_record:
  "load_weight_data s mid = weight_record clk n m w \<Longrightarrow>
   get_weight s mid = found_response mid (PFloat w) (PStr (isoformat (clk n)))"
  by (simp add: get_weight_def found_response_def weight_record_def)

lemma str_contains_prefix: "prefix p s \<Longrightarrow> str_contains p s"
  by (cases s) auto

lemma str_contains_length: "str_contains p s \<Longrightarrow> length p \<le> length s"
  by (induction s) (auto dest: prefix_length_le)

lemma replace_absent:
  "\<not> str_contains p s \<Longrightarrow> p \<noteq> [] \<Longrightarrow> replace p n s = s"
  by (induction s) auto

lemma replace_prefix:
  "p \<noteq> [] \<Longrightarrow> replace p n (p @ s) = n @ replace p n s"
  by (cases p) auto

lemma length_replace_le: "p \<noteq> [] \<Longrightarrow> length (replace p [] s) \<le> length s"
proof (induction p "[]::string" s rule: replace.induct)
  case (1 old)
  then show ?case by simp
next
  case (2 old c cs)
  then show ?case by (auto simp: le_SucI intro: order_trans)
qed

lemma length_replace_contains:
  "str_contains p s \<Longrightarrow> p \<noteq> [] \<Longrightarrow> length (replace p [] s) + length p \<le> length s"
proof (induction s)
  case Nil
  then show ?case by simp
next
  case (Cons c cs)
  show ?case
  proof (cases "prefix p (c # cs)")
    case True
    then obtain r where r: "c # cs = p @ r" by (auto simp: prefix_def)
    have "length (replace p [] r) \<le> length r" using Cons.prems by (simp add: length_replace_le)
    moreover have "replace p [] (c # cs) = replace p [] r"
      using Cons.prems(2) replace_prefix[of p "[]" r] by (simp only: r) simp
    moreover have "length (c # cs) = length p + length r" by (simp only: r length_append)
    ultimately show ?thesis by simp
  next
    case False
    with Cons show ?thesis by auto
  qed
qed

lemma prefix_append_boundary:
  assumes "prefix p (x @ b)" "b \<noteq> []" "hd b \<notin> set p"
  shows "prefix p x"
proof -
  from assms(1) consider "prefix p x" | us where "p = x @ us" "prefix us b"
    by (auto simp: prefix_append)
  then show ?thesis
  proof cases
    case 1 then show ?thesis .
  next
    case 2
    show ?thesis
    proof (cases us)
      case Nil with 2 show ?thesis by simp
    next
      case (Cons u us')
      with 2(2) assms(2) have "hd b = u" by (cases b) auto
      with 2(1) Cons assms(3) show ?thesis by simp
    qed
  qed
qed

lemma str_contains_append_boundary:
  "\<not> str_contains p x \<Longrightarrow> \<not> str_contains p b \<Longrightarrow> b \<noteq> [] \<Longrightarrow> hd b \<notin> set p \<Longrightarrow>
   \<not> str_contains p (x @ b)"
proof (induction x)
  case Nil
  then show ?case by simp
next
  case (Cons c cs)
  have "\<not> prefix p ((c # cs) @ b)"
    using Cons.prems prefix_append_boundary[of p "c # cs" b] by auto
  moreover have "\<not> str_contains p (cs @ b)" using Cons by auto
  ultimately show ?case by simp
qed

lemma replace_own_suffix:
  assumes "p \<noteq> []" "hd p \<notin> set (tl p)"
  shows "\<not> str_contains p x \<Longrightarrow> replace p [] (x @ p) = x"
proof (induction x)
  case Nil
  from assms(1) show ?case using replace_prefix[of p "[]" "[]"] by simp
next
  case (Cons c cs)
  have np: "\<not> prefix p ((c # cs) @ p)"
  proof
    assume "prefix p ((c # cs) @ p)"
    then have "prefix p (c # cs) \<or> (\<exists>us. p = (c # cs) @ us \<and> prefix us p)"
      by (simp only: prefix_append)
    then consider "prefix p (c # cs)" | us where "p = (c # cs) @ us" "prefix us p"
      by blast
    then show False
    proof cases
      case 1 with Cons.prems show False by simp
    next
      case 2
      show False
      proof (cases us)
        case Nil
        with 2 Cons.prems show False by simp
      next
        case (Cons u us')
        with 2(2) assms(1) have "hd p = u" by (cases p) auto
        moreover from 2(1) Cons have "u \<in> set (tl p)" by simp
        ultimately show False using assms(2) by simp
      qed
    qed
  qed
  from Cons have "replace p [] (cs @ p) = cs" by simp
  with np assms(1) show ?case by simp
qed

lemma str_contains_iff: "str_contains p s \<longleftrightarrow> (\<exists>a b. s = a @ p @ b)"
proof (induction s)
  case Nil
  then show ?case by auto
next
  case (Cons c cs)
  show ?case
  proof
    assume "str_contains p (c # cs)"
    then consider "prefix p (c # cs)" | "str_contains p cs" by auto
    then show "\<exists>a b. c # cs = a @ p @ b"
    proof cases
      case 1
      then obtain b where "c # cs = p @ b" by (auto simp: prefix_def)
      then have "c # cs = [] @ p @ b" by simp
      then show ?thesis by blast
    next
      case 2
      with Cons obtain a b where "cs = a @ p @ b" by blast
      then have "c # cs = (c # a) @ p @ b" by simp
      then show ?thesis by blast
    qed
  next
    assume "\<exists>a b. c # cs = a @ p @ b"
    then obtain a b where ab: "c # cs = a @ p @ b" by blast
    show "str_contains p (c # cs)"
    proof (cases a)
      case Nil
      with ab have "prefix p (c # cs)" by (simp add: prefix_def)
      then show ?thesis by simp
    next
      case (Cons a0 a')
      with ab have "cs = a' @ p @ b" by simp
      with Cons.IH show ?thesis by auto
    qed
  qed
qed

lemma str_contains_appendI: "str_contains p x \<Longrightarrow> str_contains p (x @ b)"
  unfolding str_contains_iff by (metis append.assoc)

lemma str_contains_suffix: "str_contains p (r @ p)"
  unfolding str_contains_iff by (metis append_Nil2)

lemma length_replace_twice:
  "str_contains p x \<Longrightarrow> p \<noteq> [] \<Longrightarrow> length (replace p [] (x @ p)) + length p \<le> length x"
proof (induction x)
  case Nil
  then show ?case by simp
next
  case (Cons c cs)
  have len: "length p \<le> length (c # cs)" using Cons.prems(1) by (rule str_contains_length)
  show ?case
  proof (cases "prefix p (c # cs)")
    case True
    then obtain r where r: "c # cs = p @ r" by (auto simp: prefix_def)
    have "str_contains p (r @ p)" by (rule str_contains_suffix)
    then have "length (replace p [] (r @ p)) + length p \<le> length r + length p"
      using length_replace_contains[of p "r @ p"] Cons.prems(2) by simp
    moreover have "replace p [] ((c # cs) @ p) = replace p [] (r @ p)"
      using Cons.prems(2) replace_prefix[of p "[]" "r @ p"] by (simp only: r) simp
    moreover have "length (c # cs) = length p + length r" by (simp only: r length_append)
    ultimately show ?thesis by simp
  next
    case False
    then have np: "\<not> prefix p ((c # cs) @ p)"
      using len prefix_length_prefix[of p "(c # cs) @ p" "c # cs"] by auto
    from False Cons.prems have "str_contains p cs" by simp
    then have "length (replace p [] (cs @ p)) + length p \<le> length cs"
      using Cons by simp
    with np Cons.prems(2) show ?thesis by simp
  qed
qed

lemma listed_id_clean:
  assumes "clean_id mid"
  shows "listed_id (machine_filename mid) = mid"
proof -
  have a: "\<not> str_contains ''machine_'' (mid @ ''.json'')"
    using assms by (intro str_contains_append_boundary) (simp_all add: clean_id_def)
  have "replace ''machine_'' [] (machine_filename mid) = replace ''machine_'' [] (mid @ ''.json'')"
    unfolding machine_filename_def using replace_prefix[of "''machine_''" "[]" "mid @ ''.json''"] by simp
  also have "\<dots> = mid @ ''.json''" using a by (simp add: replace_absent)
  finally have "listed_id (machine_filename mid) = replace ''.json'' [] (mid @ ''.json'')"
    by (simp add: listed_id_def)
  also have "\<dots> = mid" using assms by (intro replace_own_suffix) (simp_all add: clean_id_def)
  finally show ?thesis .
qed

lemma listed_id_unclean:
  assumes "\<not> clean_id mid"
  shows "length (listed_id (machine_filename mid)) < length mid"
proof (cases "str_contains ''machine_'' mid")
  case True
  then have "str_contains ''machine_'' (mid @ ''.json'')" by (rule str_contains_appendI)
  then have "length (replace ''machine_'' [] (mid @ ''.json'')) + 8 \<le> length mid + 5"
    using length_replace_contains[of "''machine_''" "mid @ ''.json''"] by simp
  moreover have "replace ''machine_'' [] (machine_filename mid) = replace ''machine_'' [] (mid @ ''.json'')"
    unfolding machine_filename_def using replace_prefix[of "''machine_''" "[]" "mid @ ''.json''"] by simp
  moreover have "length (listed_id (machine_filename mid))
      \<le> length (replace ''machine_'' [] (machine_filename mid))"
    unfolding listed_id_def by (rule length_replace_le) simp
  ultimately show ?thesis by simp
next
  case False
  with assms have c: "str_contains ''.json'' mid" by (simp add: clean_id_def)
  have a: "\<not> str_contains ''machine_'' (mid @ ''.json'')"
    using False by (intro str_contains_append_boundary) simp_all
  have "replace ''machine_'' [] (machine_filename mid) = replace ''machine_'' [] (mid @ ''.json'')"
    unfolding machine_filename_def using replace_prefix[of "''machine_''" "[]" "mid @ ''.json''"] by simp
  also have "\<dots> = mid @ ''.json''" using a by (simp add: replace_absent)
  finally have "listed_id (machine_filename mid) = replace ''.json'' [] (mid @ ''.json'')"
    by (simp add: listed_id_def)
  moreover have "length (replace ''.json'' [] (mid @ ''.json'')) + length ''.json'' \<le> length mid"
    using c by (intro length_replace_twice) simp_all
  ultimately show ?thesis by simp
qed

lemma load_weight_data_ok: "store_ok s \<Longrightarrow> record_ok (load_weight_data s m)"
proof -
  assume ok: "store_ok s"
  show ?thesis
  proof (cases "map_of (files s) (machine_filename m)")
    case None
    then show ?thesis by (simp add: load_weight_data_eq record_ok_def)
  next
    case (Some c)
    then have "(machine_filename m, c) \<in> set (files s)" by (rule map_of_SomeD)
    with ok have "case c of Corrupt \<Rightarrow> True | Doc v \<Rightarrow> record_ok v"
      by (auto simp: store_ok_def list_all_iff)
    with Some show ?thesis
      by (cases c) (simp_all add: load_weight_data_eq record_ok_def)
  qed
qed

lemma machines_loop_skip:
  "\<not> (prefix ''machine_'' fn \<and> suffix ''.json'' fn \<and> truthy (load_weight_data s (listed_id fn))) \<Longrightarrow>
   machines_loop s (fn # fns) acc = machines_loop s fns acc"
  by (auto simp: Let_def)

lemma machines_loop_take:
  "prefix ''machine_'' fn \<Longrightarrow> suffix ''.json'' fn \<Longrightarrow> truthy (load_weight_data s (listed_id fn)) \<Longrightarrow>
   machines_loop s (fn # fns) acc =
     (case py_getitem (load_weight_data s (listed_id fn)) ''weight'' of
        Inl e \<Rightarrow> Inl e
      | Inr w \<Rightarrow>
          (case py_get (load_weight_data s (listed_id fn)) ''last_updated'' (PStr ''Unknown'') of
             Inl e \<Rightarrow> Inl e
           | Inr lu \<Rightarrow> machines_loop s fns (acc @ [summary (listed_id fn) w lu])))"
  by (simp add: Let_def summary_def split: sum.splits)

lemma entry_summary_skip:
  "\<not> (prefix ''machine_'' fn \<and> suffix ''.json'' fn \<and> truthy (load_weight_data s (listed_id fn))) \<Longrightarrow>
   entry_summary s fn = None"
  by (auto simp: entry_summary_def split: pyval.splits option.splits)

lemma machines_loop_ok:
  "store_ok s \<Longrightarrow> machines_loop s fns acc = Inr (acc @ List.map_filter (entry_summary s) fns)"
proof (induction fns arbitrary: acc)
  case Nil
  then show ?case by (simp add: List.map_filter_simps)
next
  case (Cons fn fns)
  note IH = Cons.IH[OF Cons.prems]
  show ?case
  proof (cases "prefix ''machine_'' fn \<and> suffix ''.json'' fn \<and> truthy (load_weight_data s (listed_id fn))")
    case False
    then have "machines_loop s (fn # fns) acc = machines_loop s fns acc"
      by (rule machines_loop_skip)
    moreover from False have "entry_summary s fn = None" by (rule entry_summary_skip)
    ultimately show ?thesis by (simp add: IH List.map_filter_simps)
  next
    case True
    have "record_ok (load_weight_data s (listed_id fn))"
      using Cons.prems by (rule load_weight_data_ok)
    with True obtain kvs w where d: "load_weight_data s (listed_id fn) = PDict kvs"
      and w: "map_of kvs ''weight'' = Some w"
      by (auto simp: record_ok_def split: pyval.splits)
    let ?lu = "case map_of kvs ''last_updated'' of None \<Rightarrow> PStr ''Unknown'' | Some lu \<Rightarrow> lu"
    have e: "entry_summary s fn = Some (summary (listed_id fn) w ?lu)"
      using True d w by (simp add: entry_summary_def)
    have "machines_loop s (fn # fns) acc = machines_loop s fns (acc @ [summary (listed_id fn) w ?lu])"
      using True d w machines_loop_take[of fn s fns acc]
      by (simp del: machines_loop.simps split: option.splits)
    then show ?thesis by (simp add: IH List.map_filter_simps e)
  qed
qed

lemma map_filter_mem: "x \<in> set xs \<Longrightarrow> f x = Some y \<Longrightarrow> y \<in> set (List.map_filter f xs)"
  by (induction xs) (auto split: option.splits)

lemma get_all_machines_ok:
  "store_ok s \<Longrightarrow> get_all_machines s = List.map_filter (entry_summary s) (map fst (files s))"
  by (simp add: get_all_machines_def machines_loop_ok)



lemma in_get_all_machines:
  assumes "store_ok s" "clean_id m" "storable m"
    and "map_of (files s) (machine_filename m) = Some (Doc (PDict kvs))"
    and "map_of kvs ''weight'' = Some w"
  shows "summary m w (case map_of kvs ''last_updated'' of None \<Rightarrow> PStr ''Unknown'' | Some lu \<Rightarrow> lu)
           \<in> set (get_all_machines s)"
proof -
  have mem: "machine_filename m \<in> set (map fst (files s))"
    using assms(4) by (metis map_of_eq_None_iff option.distinct(1) set_map)
  have "entry_summary s (machine_filename m) =
      Some (summary m w (case map_of kvs ''last_updated'' of None \<Rightarrow> PStr ''Unknown'' | Some lu \<Rightarrow> lu))"
    using assms
    by (simp add: entry_summary_def listed_id_clean load_weight_data_eq machine_filename_pattern)
  with mem show ?thesis
    unfolding get_all_machines_ok[OF assms(1)] by (rule map_filter_mem)
qed

lemma save_weight_data_cases:
  "save_weight_data clk fault s mid w =
     (if \<not> storable mid \<or> fault = OpenFails then (False, s\<lparr>ticks := ticks s + 2\<rparr>)
      else if fault = WriteFails then
        (False, s\<lparr>files := AList.update (machine_filename mid) Corrupt (files s), ticks := ticks s + 2\<rparr>)
      else
        (True, s\<lparr>files := AList.update (machine_filename mid) (Doc (weight_record clk (ticks s) mid w)) (files s),
                 ticks := ticks s + 2\<rparr>))"
  by (cases fault)
     (simp_all add: save_weight_data_ok save_weight_data_open_fails save_weight_data_bad_path
        save_weight_data_write_fails)

lemma http_status_handle_exn: "http_status (handle_exn e) \<noteq> 200"
  by (cases e) (simp_all add: error_response_def)

lemma http_status_success_ack: "http_status (success_ack m w t) = 200"
  by (simp add: success_ack_def)

lemma update_weight_success:
  assumes "update_weight clk rnd fault s mid req = (r, s')" and "http_status r = 200"
  shows "\<exists>kvs v w. req = Inr (PDict kvs) \<and> map_of kvs ''weight'' = Some v \<and> py_float rnd v = Inr w \<and>
           fault = NoFault \<and> storable mid \<and>
           r = success_ack mid w (clk (ticks s + 2)) \<and>
           s' = s\<lparr>files := AList.update (machine_filename mid)
                              (Doc (weight_record clk (ticks s) mid w)) (files s),
                   ticks := ticks s + 3\<rparr>"
proof (cases req)
  case (Inl e)
  with assms show ?thesis by (auto simp: update_weight_def http_status_handle_exn)
next
  case (Inr data)
  show ?thesis
  proof (cases "\<exists>kvs v. data = PDict kvs \<and> map_of kvs ''weight'' = Some v")
    case False
    have "http_status (fst (update_weight clk rnd fault s mid (Inr data))) \<noteq> 200"
      using False
      by (cases data)
         (auto simp: update_weight_def error_response_def http_status_handle_exn
               split: sum.splits option.splits)
    with assms Inr show ?thesis by simp
  next
    case True
    then obtain kvs v where d: "data = PDict kvs" and v: "map_of kvs ''weight'' = Some v" by blast
    show ?thesis
    proof (cases "py_float rnd v")
      case (Inl e)
      with assms Inr d v show ?thesis
        using http_status_handle_exn[of e] by (auto simp: update_weight_dict)
    next
      case (Inr w)
      with assms \<open>req = Inr data\<close> d v show ?thesis
        by (cases fault)
           (auto simp: update_weight_dict save_weight_data_cases error_response_def
              split: if_splits)
    qed
  qed
qed

lemma update_weight_files:
  assumes "update_weight clk rnd fault s m req = (r, s')"
  shows "files s' = files s
       \<or> (http_status r \<noteq> 200 \<and> files s' = AList.update (machine_filename m) Corrupt (files s))
       \<or> (\<exists>w. http_status r = 200 \<and>
             files s' = AList.update (machine_filename m) (Doc (weight_record clk (ticks s) m w)) (files s))"
proof (cases "http_status r = 200")
  case True
  from update_weight_success[OF assms True] show ?thesis using True by auto
next
  case False
  show ?thesis
  proof (cases req)
    case (Inl e)
    with assms show ?thesis by (auto simp: update_weight_def)
  next
    case (Inr data)
    show ?thesis
    proof (cases "\<exists>kvs v. data = PDict kvs \<and> map_of kvs ''weight'' = Some v")
      case nd: False
      have "snd (update_weight clk rnd fault s m (Inr data)) = s"
        using nd
        by (cases data) (auto simp: update_weight_def split: sum.splits option.splits)
      with assms Inr show ?thesis by simp
    next
      case True
      then obtain kvs v where d: "data = PDict kvs" and v: "map_of kvs ''weight'' = Some v" by blast
      show ?thesis
      proof (cases "py_float rnd v")
        case (Inl e)
        with assms Inr d v show ?thesis by (auto simp: update_weight_dict)
      next
        case w: (Inr w)
        with assms Inr d v False show ?thesis
          by (cases fault)
             (auto simp: update_weight_dict save_weight_data_cases error_response_def
                http_status_success_ack split: if_splits)
      qed
    qed
  qed
qed

lemma store_ok_update:
  "store_ok s \<Longrightarrow> (case c of Corrupt \<Rightarrow> True | Doc v \<Rightarrow> record_ok v) \<Longrightarrow>
   store_ok (s\<lparr>files := AList.update k c (files s)\<rparr>)"
proof -
  assume ok: "store_ok s" and c: "case c of Corrupt \<Rightarrow> True | Doc v \<Rightarrow> record_ok v"
  have "set (AList.update k c al) \<subseteq> insert (k, c) (set al)" for al :: "(string \<times> file_content) list"
    by (induction al) auto
  with ok c show ?thesis
    by (auto simp: store_ok_def list_all_iff)
qed

lemma record_ok_weight_record: "record_ok (weight_record clk n m w)"
  by (simp add: record_ok_def weight_record_def)

lemma store_ok_update_weight:
  assumes "update_weight clk rnd fault s m req = (r, s')" "store_ok s"
  shows "store_ok s'"
proof -
  have *: "store_ok t" if "files t = files s" for t
    using assms(2) that by (simp add: store_ok_def)
  have **: "store_ok t" if "files t = AList.update k c (files s)"
      "case c of Corrupt \<Rightarrow> True | Doc v \<Rightarrow> record_ok v" for t k c
    using store_ok_update[OF assms(2) that(2), of k] that(1) by (simp add: store_ok_def)
  from update_weight_files[OF assms(1)] show ?thesis
    using * ** [of s' _ Corrupt] ** [of s' _ "Doc (weight_record clk (ticks s) m _)"]
    by (auto simp: record_ok_weight_record)
qed

lemma distinct_update_weight:
  assumes "update_weight clk rnd fault s m req = (r, s')" "distinct (map fst (files s))"
  shows "distinct (map fst (files s'))"
  using update_weight_files[OF assms(1)] assms(2) by (auto simp: distinct_update)

lemma load_after_update:
  "load_weight_data (s\<lparr>files := AList.update (machine_filename m) c (files s), ticks := t\<rparr>) m' =
     (if \<not> storable m' then PNone
      else if m' = m then (case c of Corrupt \<Rightarrow> PNone | Doc v \<Rightarrow> v)
      else load_weight_data s m')"
  by (simp add: load_weight_data_eq update_conv' machine_filename_inj)

section \<open>Runs, listings and sample stores\<close>

lemma update_weight_float_ok:
  "storable mid \<Longrightarrow>
   update_weight clk rnd NoFault s mid (weight_payload (PFloat w)) =
     (success_ack mid w (clk (ticks s + 2)),
      s\<lparr>files := AList.update (machine_filename mid) (Doc (weight_record clk (ticks s) mid w)) (files s),
        ticks := ticks s + 3\<rparr>)"
  by (simp add: weight_payload_def update_weight_dict save_weight_data_cases storable_digits)

lemma zpad_numeral: "zpad (numeral k) n = zpad (pred_numeral k) (n div 10) @ [digit_char n]"
  using zpad.simps(2)[of "pred_numeral k" n] by (simp only: numeral_eq_Suc)

lemma isoformat_sample_clock_0: "isoformat (sample_clock 0) = ''2024-01-02T03:04:05''"
  by (simp add: isoformat_def sample_clock_def digit_char_def zpad_numeral)

lemma submit_1_on_empty:
  "update_weight sample_clock Fin NoFault empty_world ''1'' (weight_payload (PFloat (Fin (21 / 2)))) =
     (success_ack ''1'' (Fin (21 / 2)) (sample_clock 2), world_1)"
  by (simp add: update_weight_float_ok empty_world_def machine_filename_def storable_digits world_1_def)
     (simp add: numeral_2_eq_2)



lemma isoformat_sample_clock_2: "isoformat (sample_clock 2) = ''2024-01-02T03:04:05.000002''"
  by (simp add: isoformat_def sample_clock_def digit_char_def zpad_numeral)

lemma get_weight_world_1:
  "get_weight world_1 ''1'' = found_response ''1'' (PFloat (Fin (21 / 2))) (PStr ''2024-01-02T03:04:05'')"
proof -
  have "load_weight_data world_1 ''1'' = weight_record sample_clock 0 ''1'' (Fin (21 / 2))"
    by (simp add: load_weight_data_eq world_1_def machine_filename_def storable_digits)
  then show ?thesis
    using get_weight_record[of world_1 "''1''" sample_clock 0 "''1''" "Fin (21 / 2)"]
    by (simp add: isoformat_sample_clock_0)
qed

lemma filter_absent: "x \<notin> set xs \<Longrightarrow> filter (\<lambda>k. k = x) xs = []"
  by (induction xs) auto

lemma distinct_filter_one:
  "distinct xs \<Longrightarrow> x \<in> set xs \<Longrightarrow> length (filter (\<lambda>k. k = x) xs) = 1"
  by (induction xs) (auto simp: filter_absent)

lemma submit_1_on_world_1:
  "update_weight sample_clock Fin NoFault world_1 ''1'' (weight_payload (PFloat (Fin 12))) =
     (success_ack ''1'' (Fin 12) (sample_clock 5), world_2)"
  by (simp add: update_weight_float_ok world_1_def machine_filename_def storable_digits world_2_def)

lemma update_weight_payload:
  "update_weight clk rnd fault s mid (weight_payload v) =
     (case py_float rnd v of
        Inl e \<Rightarrow> (handle_exn e, s)
      | Inr w \<Rightarrow>
          (case save_weight_data clk fault s mid w of
             (True, s1) \<Rightarrow> (success_ack mid w (clk (ticks s1)), s1\<lparr>ticks := Suc (ticks s1)\<rparr>)
           | (False, s1) \<Rightarrow> (error_response 500 ''Failed to save weight data'', s1)))"
  unfolding weight_payload_def by (rule update_weight_dict) simp

lemma float_inf: "float_of_string rnd ''inf'' = Some PInf"
  by (simp add: float_of_string_def strip_def is_space_def split_sign_def lower_char_def)



lemma float_of_string_whitespace:
  "float_of_string Fin (CHR 0x1F # ''1.5'') = None"
  "float_of_string Fin (CHR 0xA0 # ''1.5'') = Some (Fin (3 / 2))"
  "float_of_string Fin (CHR 0x85 # ''1.5'') = Some (Fin (3 / 2))"
  "float_of_string Fin ('' 1.5'' @ [CHR 0x0A]) = Some (Fin (3 / 2))"
  by (simp_all add: float_of_string_def strip_def is_space_def split_sign_def lower_char_def
      parse_number_def is_digit_def parse_exponent_def digits_val_def digit_val_def scale10_def)

lemma submit_inf_on_empty:
  "update_weight sample_clock Fin NoFault empty_world ''1'' (weight_payload (PStr ''inf'')) =
     (success_ack ''1'' PInf (sample_clock 2),
      \<lparr>files = [(''machine_1.json'', Doc (weight_record sample_clock 0 ''1'' PInf))], ticks = 3\<rparr>)"
  by (simp add: update_weight_payload float_inf save_weight_data_cases storable_digits empty_world_def
      machine_filename_def)
     (simp add: numeral_2_eq_2)

lemma load_weight_data_files:
  "files t = files s \<Longrightarrow> load_weight_data t m = load_weight_data s m"
  by (simp add: load_weight_data_eq)

lemma load_after_files_update:
  "files t = AList.update (machine_filename m) c (files s) \<Longrightarrow>
   load_weight_data t m' =
     (if \<not> storable m' then PNone
      else if m' = m then (case c of Corrupt \<Rightarrow> PNone | Doc v \<Rightarrow> v)
      else load_weight_data s m')"
  by (simp add: load_weight_data_eq update_conv' machine_filename_inj)

lemma update_weight_keeps_no_record:
  assumes "update_weight clk rnd fault s m req = (r, s1)"
    and "load_weight_data s mid = PNone"
    and "m = mid \<longrightarrow> http_status r \<noteq> 200"
  shows "load_weight_data s1 mid = PNone"
proof -
  from update_weight_files[OF assms(1)] consider
      "files s1 = files s"
    | "http_status r \<noteq> 200" "files s1 = AList.update (machine_filename m) Corrupt (files s)"
    | w where "http_status r = 200"
        "files s1 = AList.update (machine_filename m) (Doc (weight_record clk (ticks s) m w)) (files s)"
    by blast
  then show ?thesis
  proof cases
    case 1
    then have "load_weight_data s1 mid = load_weight_data s mid"
      by (rule load_weight_data_files)
    then show ?thesis using assms(2) by simp
  next
    case 2
    show ?thesis
      using assms(2) by (simp add: load_after_files_update[OF 2(2)])
  next
    case 3
    with assms(3) have "m \<noteq> mid" by auto
    then show ?thesis
      using assms(2) by (simp add: load_after_files_update[OF 3(2)])
  qed
qed

lemma run_submits_no_record:
  "load_weight_data s mid = PNone \<Longrightarrow>
   never_succeeded mid (snd (run_submits clk rnd s ops)) \<Longrightarrow>
   load_weight_data (fst (run_submits clk rnd s ops)) mid = PNone"
proof (induction ops arbitrary: s)
  case Nil
  then show ?case by simp
next
  case (Cons op ops)
  obtain m fault req where op: "op = (m, fault, req)" by (cases op) auto
  obtain r s1 where u: "update_weight clk rnd fault s m req = (r, s1)"
    by (cases "update_weight clk rnd fault s m req")
  obtain s2 answers where rest: "run_submits clk rnd s1 ops = (s2, answers)"
    by (cases "run_submits clk rnd s1 ops")
  from Cons.prems(2) have ns: "m = mid \<longrightarrow> http_status r \<noteq> 200" "never_succeeded mid answers"
    by (simp_all add: op u rest never_succeeded_def)
  have "load_weight_data s1 mid = PNone"
    using u Cons.prems(1) ns(1) by (rule update_weight_keeps_no_record)
  moreover have "never_succeeded mid (snd (run_submits clk rnd s1 ops))"
    using ns(2) rest by simp
  ultimately have "load_weight_data (fst (run_submits clk rnd s1 ops)) mid = PNone"
    by (rule Cons.IH)
  then show ?case by (simp add: op u rest)
qed

lemma submit_abc_on_world_1:
  "update_weight sample_clock Fin NoFault world_1 ''2'' (weight_payload (PStr ''abc''))
     = (error_response 400 ''Invalid weight format'', world_1)"
  unfolding weight_payload_def by (rule update_weight_abc)

lemma failed_write_on_world_1:
  "update_weight sample_clock Fin WriteFails world_1 ''2'' (weight_payload (PFloat (Fin 12)))
     = (error_response 500 ''Failed to save weight data'', world_3)"
  by (simp add: update_weight_payload save_weight_data_cases storable_digits
        world_1_def world_3_def machine_filename_def)

lemma run_sample_run:
  "run_submits sample_clock Fin empty_world sample_run
      = (world_3,
         [(''1'', success_ack ''1'' (Fin (21 / 2)) (sample_clock 2)),
          (''2'', error_response 400 ''Invalid weight format''),
          (''2'', error_response 500 ''Failed to save weight data'')])"
  unfolding sample_run_def
  by (simp only: run_submits.simps submit_1_on_empty submit_abc_on_world_1
        failed_write_on_world_1 prod.case)

lemma get_weight_world_3:
  "get_weight world_3 ''1'' = found_response ''1'' (PFloat (Fin (21 / 2))) (PStr ''2024-01-02T03:04:05'')"
proof -
  have "load_weight_data world_3 ''1'' = weight_record sample_clock 0 ''1'' (Fin (21 / 2))"
    by (simp add: load_weight_data_eq world_3_def machine_filename_def storable_digits)
  then show ?thesis
    using get_weight_record[of world_3 "''1''" sample_clock 0 "''1''" "Fin (21 / 2)"]
    by (simp add: isoformat_sample_clock_0)
qed

lemma store_ok_world_1: "store_ok world_1"
  by (simp add: store_ok_def world_1_def record_ok_weight_record)

lemma clean_id_1: "clean_id ''1''"
  by (simp add: clean_id_def)

lemma listed_id_machine_1: "listed_id (machine_filename ''machine_1'') = ''1''"
  by (simp add: listed_id_def machine_filename_def)


















section \<open>Claims\<close>




text \<open>
  C2, as stated, fails: machine 1 has a record, the write of a new one fails after the
  file was opened, and the record is gone: the file was truncated in place.
\<close>

theorem C2_counterexample:
  "fst (update_weight sample_clock Fin WriteFails world_1 ''1'' (weight_payload (PFloat (Fin 12))))
     = error_response 500 ''Failed to save weight data''
   \<and> get_weight world_1 ''1''
     = found_response ''1'' (PFloat (Fin (21 / 2))) (PStr ''2024-01-02T03:04:05'')
   \<and> get_weight (snd (update_weight sample_clock Fin WriteFails world_1 ''1''
        (weight_payload (PFloat (Fin 12))))) ''1''
     = no_data_response ''1''"
  by (simp add: update_weight_payload save_weight_data_cases storable_digits get_weight_world_1)
     (simp add: get_weight_none load_weight_data_eq world_1_def machine_filename_def storable_digits)

text \<open>
  C2, amended. When the write of a valid submission fails, the answer is the server
  error 500 and the records of every other machine are as before. If \<open>open\<close> itself
  failed, the store is unchanged; if the write failed after the file was opened (the file
  is written in place, not through a temporary file), the machine is left without a
  readable record and \<open>get_weight\<close> answers \<open>no_data\<close> for it.
\<close>

theorem C2_failed_write:
  assumes "fault \<noteq> NoFault" and "py_float rnd v = Inr w"
    and "update_weight clk rnd fault s mid (weight_payload v) = (r, s')"
  shows "r = error_response 500 ''Failed to save weight data''
       \<and> (\<forall>m. m \<noteq> mid \<longrightarrow> load_weight_data s' m = load_weight_data s m \<and> get_weight s' m = get_weight s m)
       \<and> (fault = OpenFails \<longrightarrow> files s' = files s)
       \<and> (fault = WriteFails \<longrightarrow> get_weight s' mid = no_data_response mid)"
proof -
  have other: "load_weight_data t m = load_weight_data s m \<and> get_weight t m = get_weight s m"
    if "files t = files s \<or> files t = AList.update (machine_filename mid) c (files s)" "m \<noteq> mid"
    for t m c
  proof -
    have "load_weight_data t m = load_weight_data s m"
      using that by (auto simp: load_weight_data_eq update_conv' machine_filename_inj)
    then show ?thesis by (simp add: get_weight_def)
  qed
  show ?thesis
  proof (cases "\<not> storable mid \<or> fault = OpenFails")
    case True
    with assms have r: "r = error_response 500 ''Failed to save weight data''"
      and s': "s' = s\<lparr>ticks := ticks s + 2\<rparr>"
      by (auto simp: update_weight_payload save_weight_data_cases storable_digits)
    have "get_weight s' mid = no_data_response mid" if "fault = WriteFails"
      using that True by (intro get_weight_none) (simp add: load_weight_data_eq)
    moreover have "files s' = files s" using s' by simp
    ultimately show ?thesis using r other[of s'] by blast
  next
    case False
    with assms(1) have wf: "fault = WriteFails" by (cases fault) auto
    with False assms have r: "r = error_response 500 ''Failed to save weight data''"
      and s': "s' = s\<lparr>files := AList.update (machine_filename mid) Corrupt (files s),
                       ticks := ticks s + 2\<rparr>"
      by (auto simp: update_weight_payload save_weight_data_cases storable_digits)
    have "get_weight s' mid = no_data_response mid"
      using s' by (intro get_weight_none) (simp add: load_after_update)
    moreover have "files s' = AList.update (machine_filename mid) Corrupt (files s)"
      using s' by simp
    ultimately show ?thesis using r wf other[of s' Corrupt] by auto
  qed
qed

text \<open>C2, amended, at the failed write for machine 1 of the counterexample.\<close>

theorem C2_witness:
  "WriteFails \<noteq> NoFault \<and> py_float Fin (PFloat (Fin 12)) = Inr (Fin 12)
   \<and> update_weight sample_clock Fin WriteFails world_1 ''1'' (weight_payload (PFloat (Fin 12)))
       = (error_response 500 ''Failed to save weight data'',
          \<lparr>files = [(''machine_1.json'', Corrupt)], ticks = 5\<rparr>)
   \<and> get_weight \<lparr>files = [(''machine_1.json'', Corrupt)], ticks = 5\<rparr> ''1'' = no_data_response ''1''
   \<and> get_weight \<lparr>files = [(''machine_1.json'', Corrupt)], ticks = 5\<rparr> ''2'' = get_weight world_1 ''2''"
proof -
  have f: "WriteFails \<noteq> NoFault" by simp
  have p: "py_float Fin (PFloat (Fin 12)) = Inr (Fin 12)" by simp
  have u: "update_weight sample_clock Fin WriteFails world_1 ''1'' (weight_payload (PFloat (Fin 12)))
       = (error_response 500 ''Failed to save weight data'',
          \<lparr>files = [(''machine_1.json'', Corrupt)], ticks = 5\<rparr>)"
    by (simp add: update_weight_payload save_weight_data_cases storable_digits world_1_def machine_filename_def storable_digits)
  from C2_failed_write[OF f p u] f p u show ?thesis by simp
qed

text \<open>
  C3, as stated, fails: the string \<open>inf\<close> is no finite decimal number, and the submission
  is accepted and a record with an infinite weight is written.
\<close>

theorem C3_counterexample:
  "update_weight sample_clock Fin NoFault empty_world ''1'' (weight_payload (PStr ''inf'')) =
     (success_ack ''1'' PInf (sample_clock 2),
      \<lparr>files = [(''machine_1.json'', Doc (weight_record sample_clock 0 ''1'' PInf))], ticks = 3\<rparr>)"
  by (simp add: update_weight_payload float_inf save_weight_data_cases storable_digits empty_world_def
      machine_filename_def storable_digits)
     (simp add: numeral_2_eq_2)

text \<open>
  C3, amended. A submission whose \<open>weight\<close> makes the builtin \<open>float\<close> raise
  \<open>ValueError\<close> (a string that is no float literal) is answered with the client error 400
  and leaves the world as it was. Whenever \<open>float\<close> raises on the \<open>weight\<close>, the
  submission is not answered with success and the world is left as it was. Every document
  in the store after a submission was there before or is the record of this submission,
  whose weight is the float that \<open>float\<close> made of the submitted \<open>weight\<close>; that float
  need not be finite.
\<close>

theorem C3_unconvertible_rejected:
  "(map_of kvs ''weight'' = Some v \<and> py_float rnd v = Inl ValueError \<longrightarrow>
      update_weight clk rnd fault s mid (Inr (PDict kvs))
        = (error_response 400 ''Invalid weight format'', s))
   \<and> (float_of_string rnd str = None \<longrightarrow>
      update_weight clk rnd fault s mid (weight_payload (PStr str))
        = (error_response 400 ''Invalid weight format'', s))
   \<and> (map_of kvs ''weight'' = Some v \<and> py_float rnd v = Inl e \<longrightarrow>
      snd (update_weight clk rnd fault s mid (Inr (PDict kvs))) = s
      \<and> http_status (fst (update_weight clk rnd fault s mid (Inr (PDict kvs)))) \<noteq> 200)
   \<and> (update_weight clk rnd fault s mid req = (r, s') \<longrightarrow>
      (\<forall>n c. map_of (files s') n = Some (Doc c) \<longrightarrow>
         map_of (files s) n = Some (Doc c)
         \<or> (\<exists>kvs' v' w. req = Inr (PDict kvs') \<and> map_of kvs' ''weight'' = Some v'
               \<and> py_float rnd v' = Inr w \<and> c = weight_record clk (ticks s) mid w)))"
proof -
  have a: "update_weight clk rnd fault s mid (Inr (PDict kvs))
        = (error_response 400 ''Invalid weight format'', s)"
    if "map_of kvs ''weight'' = Some v" "py_float rnd v = Inl ValueError"
    using that by (simp add: update_weight_dict)
  have b: "float_of_string rnd str = None \<longrightarrow>
      update_weight clk rnd fault s mid (weight_payload (PStr str))
        = (error_response 400 ''Invalid weight format'', s)"
    by (simp add: update_weight_payload)
  have c: "snd (update_weight clk rnd fault s mid (Inr (PDict kvs))) = s
      \<and> http_status (fst (update_weight clk rnd fault s mid (Inr (PDict kvs)))) \<noteq> 200"
    if "map_of kvs ''weight'' = Some v" "py_float rnd v = Inl e"
    using that by (simp add: update_weight_dict http_status_handle_exn)
  have d: "map_of (files s) n = Some (Doc c)
         \<or> (\<exists>kvs' v' w. req = Inr (PDict kvs') \<and> map_of kvs' ''weight'' = Some v'
               \<and> py_float rnd v' = Inr w \<and> c = weight_record clk (ticks s) mid w)"
    if u: "update_weight clk rnd fault s mid req = (r, s')" and m: "map_of (files s') n = Some (Doc c)"
    for n c
  proof (cases "http_status r = 200")
    case True
    from update_weight_success[OF u True] obtain kvs' v' w where
      *: "req = Inr (PDict kvs')" "map_of kvs' ''weight'' = Some v'" "py_float rnd v' = Inr w"
         "s' = s\<lparr>files := AList.update (machine_filename mid)
                              (Doc (weight_record clk (ticks s) mid w)) (files s),
                   ticks := ticks s + 3\<rparr>"
      by blast
    from m *(4) have "map_of (files s) n = Some (Doc c) \<or> c = weight_record clk (ticks s) mid w"
      by (auto simp: update_conv' split: if_splits)
    with *(1,2,3) show ?thesis by blast
  next
    case False
    with update_weight_files[OF u] m show ?thesis
      by (auto simp: update_conv' split: if_splits)
  qed
  from a b c d show ?thesis by blast
qed

text \<open>
  C3, amended, at the payloads \<open>abc\<close> (answered 400) and \<open>null\<close> (not answered with
  success) on a store that holds a record, and at the payload \<open>inf\<close>, which is stored.
\<close>

theorem C3_witness:
  "map_of [(''weight'', PStr ''abc'')] ''weight'' = Some (PStr ''abc'')
   \<and> py_float Fin (PStr ''abc'') = Inl ValueError
   \<and> update_weight sample_clock Fin NoFault world_1 ''1'' (Inr (PDict [(''weight'', PStr ''abc'')]))
       = (error_response 400 ''Invalid weight format'', world_1)
   \<and> map_of [(''weight'', PNone)] ''weight'' = Some PNone
   \<and> py_float Fin PNone
       = Inl (TypeError (''float() argument must be a string or a real number, not '' @ quoted ''NoneType''))
   \<and> snd (update_weight sample_clock Fin NoFault world_1 ''1'' (Inr (PDict [(''weight'', PNone)])))
       = world_1
   \<and> update_weight sample_clock Fin NoFault empty_world ''1'' (weight_payload (PStr ''inf''))
       = (success_ack ''1'' PInf (sample_clock 2),
          \<lparr>files = [(''machine_1.json'', Doc (weight_record sample_clock 0 ''1'' PInf))], ticks = 3\<rparr>)
   \<and> py_float Fin (PStr ''inf'') = Inr PInf"
proof -
  have m1: "map_of [(''weight'', PStr ''abc'')] ''weight'' = Some (PStr ''abc'')" by simp
  have p1: "py_float Fin (PStr ''abc'') = Inl ValueError" by (simp add: float_abc)
  have m2: "map_of [(''weight'', PNone)] ''weight'' = Some PNone" by simp
  have p2: "py_float Fin PNone
       = Inl (TypeError (''float() argument must be a string or a real number, not '' @ quoted ''NoneType''))"
    by simp
  have p3: "py_float Fin (PStr ''inf'') = Inr PInf" by (simp add: float_inf)
  from C3_unconvertible_rejected[of "[(''weight'', PStr ''abc'')]" "PStr ''abc''" Fin
        sample_clock NoFault world_1 "''1''"] m1 p1
  have c1: "update_weight sample_clock Fin NoFault world_1 ''1'' (Inr (PDict [(''weight'', PStr ''abc'')]))
       = (error_response 400 ''Invalid weight format'', world_1)"
    by blast
  from C3_unconvertible_rejected[of "[(''weight'', PNone)]" PNone Fin
        sample_clock NoFault world_1 "''1''" _
        "TypeError (''float() argument must be a string or a real number, not '' @ quoted ''NoneType'')"]
      m2 p2
  have c2: "snd (update_weight sample_clock Fin NoFault world_1 ''1'' (Inr (PDict [(''weight'', PNone)])))
       = world_1"
    by blast
  from m1 p1 c1 m2 p2 c2 submit_inf_on_empty p3 show ?thesis by blast
qed

text \<open>
  C4, as stated, fails: the acknowledgement of the first submission into the empty store
  carries the third clock reading of the call, the record that was written the first.
\<close>

theorem C4_counterexample:
  "map_of (body (fst (update_weight sample_clock Fin NoFault empty_world ''1''
        (weight_payload (PFloat (Fin (21 / 2))))))) ''timestamp''
     = Some (PStr ''2024-01-02T03:04:05.000002'')
   \<and> py_getitem (load_weight_data (snd (update_weight sample_clock Fin NoFault empty_world ''1''
        (weight_payload (PFloat (Fin (21 / 2)))))) ''1'') ''timestamp''
     = Inr (PStr ''2024-01-02T03:04:05'')"
  by (simp add: submit_1_on_empty success_ack_def isoformat_sample_clock_2 load_weight_data_eq
      world_1_def machine_filename_def storable_digits weight_record_def isoformat_sample_clock_0)

text \<open>
  C4, amended. The acknowledgement of a successful submission echoes the machine
  identifier and the accepted weight \<open>float(weight)\<close>, which are those of the record
  written. Its timestamp is a clock reading of its own, made after the record was written
  (reading \<open>ticks s + 2\<close> of the clock), not the timestamp of the record (reading
  \<open>ticks s\<close>).
\<close>

theorem C4_ack_echoes_record:
  assumes "update_weight clk rnd fault s mid req = (r, s')" and "http_status r = 200"
  shows "\<exists>kvs v w. req = Inr (PDict kvs) \<and> map_of kvs ''weight'' = Some v \<and> py_float rnd v = Inr w
           \<and> map_of (body r) ''machine_id'' = Some (PStr mid)
           \<and> map_of (body r) ''weight'' = Some (PFloat w)
           \<and> map_of (body r) ''timestamp'' = Some (PStr (isoformat (clk (ticks s + 2))))
           \<and> py_getitem (load_weight_data s' mid) ''machine_id'' = Inr (PStr mid)
           \<and> py_getitem (load_weight_data s' mid) ''weight'' = Inr (PFloat w)
           \<and> py_getitem (load_weight_data s' mid) ''timestamp'' = Inr (PStr (isoformat (clk (ticks s))))"
proof -
  from update_weight_success[OF assms] obtain kvs v w where
    *: "req = Inr (PDict kvs)" "map_of kvs ''weight'' = Some v" "py_float rnd v = Inr w"
       "storable mid" "r = success_ack mid w (clk (ticks s + 2))"
       "s' = s\<lparr>files := AList.update (machine_filename mid)
                              (Doc (weight_record clk (ticks s) mid w)) (files s),
                   ticks := ticks s + 3\<rparr>"
    by blast
  have l: "load_weight_data s' mid = weight_record clk (ticks s) mid w"
    using *(4,6) by (simp add: load_after_update)
  have "map_of (body r) ''machine_id'' = Some (PStr mid)
           \<and> map_of (body r) ''weight'' = Some (PFloat w)
           \<and> map_of (body r) ''timestamp'' = Some (PStr (isoformat (clk (ticks s + 2))))
           \<and> py_getitem (load_weight_data s' mid) ''machine_id'' = Inr (PStr mid)
           \<and> py_getitem (load_weight_data s' mid) ''weight'' = Inr (PFloat w)
           \<and> py_getitem (load_weight_data s' mid) ''timestamp'' = Inr (PStr (isoformat (clk (ticks s))))"
    using *(5) l by (simp add: success_ack_def weight_record_def)
  with *(1,2,3) show ?thesis by blast
qed

text \<open>C4, amended, at the submission of 10.5 for machine 1 into the empty store.\<close>

theorem C4_witness:
  "update_weight sample_clock Fin NoFault empty_world ''1'' (weight_payload (PFloat (Fin (21 / 2)))) =
     (success_ack ''1'' (Fin (21 / 2)) (sample_clock 2), world_1)
   \<and> http_status (success_ack ''1'' (Fin (21 / 2)) (sample_clock 2)) = 200
   \<and> map_of (body (success_ack ''1'' (Fin (21 / 2)) (sample_clock 2))) ''weight''
       = Some (PFloat (Fin (21 / 2)))
   \<and> py_getitem (load_weight_data world_1 ''1'') ''weight'' = Inr (PFloat (Fin (21 / 2)))
   \<and> map_of (body (success_ack ''1'' (Fin (21 / 2)) (sample_clock 2))) ''timestamp''
       = Some (PStr (isoformat (sample_clock 2)))
   \<and> py_getitem (load_weight_data world_1 ''1'') ''timestamp'' = Inr (PStr (isoformat (sample_clock 0)))"
proof -
  note u = submit_1_on_empty
  have h: "http_status (success_ack ''1'' (Fin (21 / 2)) (sample_clock 2)) = 200"
    by (rule http_status_success_ack)
  have t: "ticks empty_world = 0" by (simp add: empty_world_def)
  from C4_ack_echoes_record[OF u h] obtain kvs v w where
    *: "weight_payload (PFloat (Fin (21 / 2))) = Inr (PDict kvs)" "map_of kvs ''weight'' = Some v"
       "py_float Fin v = Inr w"
       "map_of (body (success_ack ''1'' (Fin (21 / 2)) (sample_clock 2))) ''weight'' = Some (PFloat w)"
       "map_of (body (success_ack ''1'' (Fin (21 / 2)) (sample_clock 2))) ''timestamp''
          = Some (PStr (isoformat (sample_clock (ticks empty_world + 2))))"
       "py_getitem (load_weight_data world_1 ''1'') ''weight'' = Inr (PFloat w)"
       "py_getitem (load_weight_data world_1 ''1'') ''timestamp''
          = Inr (PStr (isoformat (sample_clock (ticks empty_world))))"
    by blast
  from *(1,2,3) have w: "w = Fin (21 / 2)" by (auto simp: weight_payload_def)
  from *(4,5,6,7) w u h show ?thesis by (simp add: t numeral_2_eq_2)
qed

text \<open>
  C5. Two successful submissions for one machine, with weights \<open>w1\<close> then \<open>w2\<close>:
  \<open>get_weight\<close> afterwards answers \<open>w2\<close> with the timestamp of the second submission, and
  the store is the initial store with the machine's file holding the second record only,
  as if the first submission had never been made. The directory never holds two files of
  one name, so there is one record for the machine.
\<close>

theorem C5_second_submit_replaces:
  assumes "update_weight clk rnd f1 s mid (weight_payload (PFloat w1)) = (r1, s1)"
    and "update_weight clk rnd f2 s1 mid (weight_payload (PFloat w2)) = (r2, s2)"
    and "http_status r1 = 200" and "http_status r2 = 200"
  shows "get_weight s2 mid = found_response mid (PFloat w2) (PStr (isoformat (clk (ticks s + 3))))
       \<and> files s2 = AList.update (machine_filename mid)
                       (Doc (weight_record clk (ticks s + 3) mid w2)) (files s)
       \<and> (distinct (map fst (files s)) \<longrightarrow>
            distinct (map fst (files s1)) \<and> distinct (map fst (files s2))
            \<and> length (filter (\<lambda>e. fst e = machine_filename mid) (files s2)) = 1)"
proof -
  from update_weight_success[OF assms(1,3)] have
    a: "storable mid"
       "s1 = s\<lparr>files := AList.update (machine_filename mid)
                              (Doc (weight_record clk (ticks s) mid w1)) (files s),
                   ticks := ticks s + 3\<rparr>"
    by (auto simp: weight_payload_def)
  from update_weight_success[OF assms(2,4)] have
    b: "s2 = s1\<lparr>files := AList.update (machine_filename mid)
                              (Doc (weight_record clk (ticks s1) mid w2)) (files s1),
                   ticks := ticks s1 + 3\<rparr>"
    by (auto simp: weight_payload_def)
  have t: "ticks s1 = ticks s + 3" using a(2) by simp
  have f: "files s2 = AList.update (machine_filename mid)
                       (Doc (weight_record clk (ticks s + 3) mid w2)) (files s)"
    using a(2) b by (simp add: t)
  have "load_weight_data s2 mid = weight_record clk (ticks s + 3) mid w2"
    using a(1) f by (simp add: load_weight_data_eq update_conv')
  then have g: "get_weight s2 mid = found_response mid (PFloat w2) (PStr (isoformat (clk (ticks s + 3))))"
    by (rule get_weight_record)
  have d: "distinct (map fst (files s1)) \<and> distinct (map fst (files s2))
            \<and> length (filter (\<lambda>e. fst e = machine_filename mid) (files s2)) = 1"
    if ds: "distinct (map fst (files s))"
  proof -
    have d1: "distinct (map fst (files s1))" using distinct_update_weight[OF assms(1) ds] .
    have d2: "distinct (map fst (files s2))" using distinct_update_weight[OF assms(2) d1] .
    have "machine_filename mid \<in> fst ` set (files s2)"
      unfolding f by (simp add: dom_update)
    then have "machine_filename mid \<in> set (map fst (files s2))" by simp
    with d2 have "length (filter (\<lambda>k. k = machine_filename mid) (map fst (files s2))) = 1"
      by (intro distinct_filter_one)
    moreover have "length (filter (\<lambda>e. fst e = machine_filename mid) (files s2))
        = length (filter (\<lambda>k. k = machine_filename mid) (map fst (files s2)))"
      by (simp add: filter_map comp_def)
    ultimately show ?thesis using d1 d2 by simp
  qed
  from g f d show ?thesis by blast
qed

text \<open>C5 at the weights 10.5 then 12.0 for machine 1, from the empty store.\<close>

theorem C5_witness:
  "update_weight sample_clock Fin NoFault empty_world ''1'' (weight_payload (PFloat (Fin (21 / 2)))) =
     (success_ack ''1'' (Fin (21 / 2)) (sample_clock 2), world_1)
   \<and> update_weight sample_clock Fin NoFault world_1 ''1'' (weight_payload (PFloat (Fin 12))) =
     (success_ack ''1'' (Fin 12) (sample_clock 5), world_2)
   \<and> http_status (success_ack ''1'' (Fin (21 / 2)) (sample_clock 2)) = 200
   \<and> http_status (success_ack ''1'' (Fin 12) (sample_clock 5)) = 200
   \<and> distinct (map fst (files empty_world))
   \<and> get_weight world_2 ''1'' = found_response ''1'' (PFloat (Fin 12)) (PStr (isoformat (sample_clock 3)))
   \<and> files world_2 = [(''machine_1.json'', Doc (weight_record sample_clock 3 ''1'' (Fin 12)))]
   \<and> length (filter (\<lambda>e. fst e = ''machine_1.json'') (files world_2)) = 1"
proof -
  note u1 = submit_1_on_empty and u2 = submit_1_on_world_1
  have h1: "http_status (success_ack ''1'' (Fin (21 / 2)) (sample_clock 2)) = 200"
    and h2: "http_status (success_ack ''1'' (Fin 12) (sample_clock 5)) = 200"
    by (rule http_status_success_ack)+
  have d: "distinct (map fst (files empty_world))" by (simp add: empty_world_def)
  from C5_second_submit_replaces[OF u1 u2 h1 h2] d u1 u2 h1 h2 show ?thesis
    by (simp add: empty_world_def machine_filename_def storable_digits)
qed

text \<open>
  C6. Start from a store without files and run any sequence of submissions, for any
  machines, with any requests and write failures. For a machine none of whose submissions
  was answered with success, \<open>get_weight\<close> answers the \<open>no_data\<close> response: status code
  200 like a success, with the status field \<open>no_data\<close>, which is neither \<open>success\<close> nor
  \<open>error\<close>, and without the fields \<open>weight\<close> and \<open>timestamp\<close> of a success.
\<close>

theorem C6_never_submitted_no_data:
  assumes "files s0 = []"
    and "never_succeeded mid (snd (run_submits clk rnd s0 ops))"
  shows "get_weight (fst (run_submits clk rnd s0 ops)) mid =
           \<lparr>http_status = 200,
            body = [(''status'', PStr ''no_data''),
                    (''message'', PStr (''No weight data available for Machine '' @ mid))]\<rparr>"
proof -
  have "load_weight_data s0 mid = PNone" using assms(1) by (simp add: load_weight_data_eq)
  then have "load_weight_data (fst (run_submits clk rnd s0 ops)) mid = PNone"
    using assms(2) by (rule run_submits_no_record)
  then have "get_weight (fst (run_submits clk rnd s0 ops)) mid = no_data_response mid"
    by (rule get_weight_none)
  then show ?thesis by (simp add: no_data_response_def)
qed

text \<open>
  C6 at a run of three submissions from the empty store: a success for machine 1, a
  rejected payload and a failed write for machine 2. Machine 2 has no data, machine 1 has.
\<close>

theorem C6_witness:
  "files empty_world = []
   \<and> never_succeeded ''2'' (snd (run_submits sample_clock Fin empty_world sample_run))
   \<and> fst (run_submits sample_clock Fin empty_world sample_run) = world_3
   \<and> get_weight world_3 ''2'' =
        \<lparr>http_status = 200,
         body = [(''status'', PStr ''no_data''),
                 (''message'', PStr ''No weight data available for Machine 2'')]\<rparr>
   \<and> get_weight world_3 ''1''
       = found_response ''1'' (PFloat (Fin (21 / 2))) (PStr ''2024-01-02T03:04:05'')"
proof -
  have e: "files empty_world = []" by (simp add: empty_world_def)
  have n: "never_succeeded ''2'' (snd (run_submits sample_clock Fin empty_world sample_run))"
    by (simp add: run_sample_run never_succeeded_def error_response_def)
  have f: "fst (run_submits sample_clock Fin empty_world sample_run) = world_3"
    by (simp add: run_sample_run)
  from C6_never_submitted_no_data[OF e n] have "get_weight world_3 ''2'' =
        \<lparr>http_status = 200,
         body = [(''status'', PStr ''no_data''),
                 (''message'', PStr ''No weight data available for Machine 2'')]\<rparr>"
    by (simp add: f)
  with e n f get_weight_world_3 show ?thesis by blast
qed

text \<open>
  C7. For every machine identifier, store and fault, submitting the payload
  \<open>{"weight": "abc"}\<close> is answered with the client error 400 and leaves the world as it
  was: no file is created or overwritten, and a later \<open>get_weight\<close> for the machine
  answers what it answered before.
\<close>

theorem C7_non_numeric_rejected:
  "update_weight clk rnd fault s mid (weight_payload (PStr ''abc'')) =
     (error_response 400 ''Invalid weight format'', s)
   \<and> http_status (fst (update_weight clk rnd fault s mid (weight_payload (PStr ''abc'')))) = 400
   \<and> files (snd (update_weight clk rnd fault s mid (weight_payload (PStr ''abc'')))) = files s
   \<and> get_weight (snd (update_weight clk rnd fault s mid (weight_payload (PStr ''abc'')))) mid
       = get_weight s mid"
  by (simp add: update_weight_abc weight_payload_def error_response_def)

text \<open>C7 at the empty store: the answer is 400 and the machine still has no data.\<close>

theorem C7_witness:
  "update_weight sample_clock Fin NoFault empty_world ''1'' (weight_payload (PStr ''abc'')) =
     (error_response 400 ''Invalid weight format'', empty_world)
   \<and> get_weight (snd (update_weight sample_clock Fin NoFault empty_world ''1''
        (weight_payload (PStr ''abc'')))) ''1'' = no_data_response ''1''"
  using C7_non_numeric_rejected[of sample_clock Fin NoFault empty_world "''1''"]
  by (simp add: get_weight_def load_weight_data_eq empty_world_def no_data_response_def)






text \<open>
  C10. The file of a machine is named \<open>machine_\<close>, its identifier, \<open>.json\<close>, and the
  listing derives the identifier from the name by deleting every \<open>machine_\<close> and then
  every \<open>.json\<close>. For an identifier with neither substring this gives the identifier
  back, and after a successful submission into a store whose files are undecodable or
  hold records (as every file the application writes) the listing has a summary with
  exactly that identifier, the accepted weight and the time of the submission. For an
  identifier with one of the substrings the file is written all the same, and the
  identifier the listing derives from its name is another one.
\<close>

theorem C10_identifier_round_trip:
  "(clean_id mid \<longrightarrow> listed_id (machine_filename mid) = mid)
   \<and> (\<not> clean_id mid \<longrightarrow> listed_id (machine_filename mid) \<noteq> mid)
   \<and> (update_weight clk rnd fault s mid req = (r, s') \<and> http_status r = 200 \<longrightarrow>
        dir_entry (get_machine_file mid) = Some (machine_filename mid)
        \<and> machine_filename mid \<in> set (map fst (files s')))
   \<and> (clean_id mid \<and> store_ok s \<and> update_weight clk rnd fault s mid req = (r, s')
        \<and> http_status r = 200 \<longrightarrow>
        (\<exists>kvs v w. req = Inr (PDict kvs) \<and> map_of kvs ''weight'' = Some v \<and> py_float rnd v = Inr w
           \<and> summary mid (PFloat w) (PStr (strftime (clk (ticks s + 1))))
                \<in> set (get_all_machines s')))"
proof -
  have a: "clean_id mid \<longrightarrow> listed_id (machine_filename mid) = mid"
    by (simp add: listed_id_clean)
  have b: "\<not> clean_id mid \<longrightarrow> listed_id (machine_filename mid) \<noteq> mid"
    using listed_id_unclean[of mid] by auto
  have c: "dir_entry (get_machine_file mid) = Some (machine_filename mid)
        \<and> machine_filename mid \<in> set (map fst (files s'))"
    if u: "update_weight clk rnd fault s mid req = (r, s')" and h: "http_status r = 200"
  proof -
    from update_weight_success[OF u h] obtain w where
      *: "storable mid"
         "s' = s\<lparr>files := AList.update (machine_filename mid)
                              (Doc (weight_record clk (ticks s) mid w)) (files s),
                   ticks := ticks s + 3\<rparr>"
      by blast
    have "machine_filename mid \<in> fst ` set (files s')"
      unfolding *(2) by (simp add: dom_update)
    with *(1) show ?thesis by (simp add: dir_entry_machine_file)
  qed
  have d: "\<exists>kvs v w. req = Inr (PDict kvs) \<and> map_of kvs ''weight'' = Some v \<and> py_float rnd v = Inr w
           \<and> summary mid (PFloat w) (PStr (strftime (clk (ticks s + 1))))
                \<in> set (get_all_machines s')"
    if cl: "clean_id mid" and ok: "store_ok s"
      and u: "update_weight clk rnd fault s mid req = (r, s')" and h: "http_status r = 200"
  proof -
    from update_weight_success[OF u h] obtain kvs v w where
      *: "req = Inr (PDict kvs)" "map_of kvs ''weight'' = Some v" "py_float rnd v = Inr w"
         "storable mid"
         "s' = s\<lparr>files := AList.update (machine_filename mid)
                              (Doc (weight_record clk (ticks s) mid w)) (files s),
                   ticks := ticks s + 3\<rparr>"
      by blast
    have ok': "store_ok s'" using u ok by (rule store_ok_update_weight)
    have m: "map_of (files s') (machine_filename mid)
        = Some (Doc (PDict [(''machine_id'', PStr mid), (''weight'', PFloat w),
                            (''timestamp'', PStr (isoformat (clk (ticks s)))),
                            (''last_updated'', PStr (strftime (clk (Suc (ticks s)))))]))"
      unfolding *(5) by (simp add: update_conv' weight_record_def)
    have "summary mid (PFloat w) (PStr (strftime (clk (ticks s + 1)))) \<in> set (get_all_machines s')"
      using in_get_all_machines[OF ok' cl *(4) m, of "PFloat w"] by simp
    with *(1,2,3) show ?thesis by blast
  qed
  from a b c d show ?thesis by blast
qed

text \<open>
  C10 at the identifier \<open>1\<close>, submitted into a store with a record, and at the
  identifier \<open>machine_1\<close>, from whose file name the listing derives \<open>1\<close>.
\<close>

theorem C10_witness:
  "clean_id ''1'' \<and> store_ok world_1
   \<and> update_weight sample_clock Fin NoFault world_1 ''1'' (weight_payload (PFloat (Fin 12)))
       = (success_ack ''1'' (Fin 12) (sample_clock 5), world_2)
   \<and> http_status (success_ack ''1'' (Fin 12) (sample_clock 5)) = 200
   \<and> listed_id (machine_filename ''1'') = ''1''
   \<and> summary ''1'' (PFloat (Fin 12)) (PStr (strftime (sample_clock 4))) \<in> set (get_all_machines world_2)
   \<and> \<not> clean_id ''machine_1''
   \<and> listed_id (machine_filename ''machine_1'') = ''1''
   \<and> listed_id (machine_filename ''machine_1'') \<noteq> ''machine_1''"
proof -
  note u = submit_1_on_world_1
  have h: "http_status (success_ack ''1'' (Fin 12) (sample_clock 5)) = 200"
    by (rule http_status_success_ack)
  have n: "\<not> clean_id ''machine_1''" by (simp add: clean_id_def)
  have t: "ticks world_1 + 1 = 4" by (simp add: world_1_def)
  note T = C10_identifier_round_trip[of "''1''" sample_clock Fin NoFault world_1
      "weight_payload (PFloat (Fin 12))" "success_ack ''1'' (Fin 12) (sample_clock 5)" world_2]
  from T clean_id_1 have r1: "listed_id (machine_filename ''1'') = ''1''" by blast
  from T clean_id_1 store_ok_world_1 u h obtain kvs v w where
    *: "weight_payload (PFloat (Fin 12)) = Inr (PDict kvs)" "map_of kvs ''weight'' = Some v"
       "py_float Fin v = Inr w"
       "summary ''1'' (PFloat w) (PStr (strftime (sample_clock (ticks world_1 + 1))))
          \<in> set (get_all_machines world_2)"
    by blast
  from *(1,2,3) have w: "w = Fin 12" by (auto simp: weight_payload_def)
  from *(4) have s: "summary ''1'' (PFloat (Fin 12)) (PStr (strftime (sample_clock 4)))
      \<in> set (get_all_machines world_2)"
    by (simp only: w t)
  from C10_identifier_round_trip[of "''machine_1''"] n
  have r2: "listed_id (machine_filename ''machine_1'') \<noteq> ''machine_1''" by blast
  from clean_id_1 store_ok_world_1 u h r1 s n listed_id_machine_1 r2 show ?thesis by blast
qed

end
